theory Spec2Isabelle
  imports Complex_Main
begin


section \<open>Data model\<close>

text \<open>
  Times and durations are Python floats in the source. A float is modelled by the
  rational number it holds, and a float literal of the source by the rational that the
  nearest double is: \<open>0.5\<close> and \<open>2.0\<close> are themselves, \<open>0.01\<close>, \<open>0.1\<close>, \<open>0.9\<close>
  and \<open>1.1\<close> are a little more than their decimals. Comparisons are then exactly the
  ones the source makes. Sums, differences and quotients are computed exactly, where the
  source rounds the result to the nearest double.
\<close>

definition float_0_01 :: rat where
  "float_0_01 = 5764607523034235 / 576460752303423488"

definition float_0_1 :: rat where
  "float_0_1 = 3602879701896397 / 36028797018963968"

definition float_0_9 :: rat where
  "float_0_9 = 8106479329266893 / 9007199254740992"

definition float_1_1 :: rat where
  "float_1_1 = 2476979795053773 / 2251799813685248"

text \<open>
  A \<open>pathlib.Path\<close> is modelled by its parts (the last part is the file name), so that
  \<open>dir / name\<close> is \<open>dir @ [name]\<close>.
\<close>

type_synonym path = "string list"

datatype error =
    ValueError
  | RuntimeError
  | ZeroDivisionError
  | CalledProcessError
  | FileNotFoundError
  | AttributeError
  | EngineError

text \<open>
  An audio file on disk: its true playing time, the sample rate and channel count of
  its header, and its samples. Every file here holds 16-bit samples, so a second of it
  takes \<open>2 * sample_rate * channels\<close> bytes.
\<close>

record wav =
  dur :: rat
  sample_rate :: nat
  channels :: nat
  pcm :: "nat list"

definition byte_rate :: "wav \<Rightarrow> rat" where
  "byte_rate a = of_nat (2 * sample_rate a * channels a)"

type_synonym store = "path \<rightharpoonup> wav"

text \<open>
  \<open>ffmpeg -y -i src -filter:a atempo=speed -vn dst\<close>, the only command the duration
  matcher runs that writes a file.
\<close>

datatype command = Atempo path rat path

record world =
  files :: store
  ffmpeg_calls :: "command list"

text \<open>
  The external tools are parameters. \<open>ffprobe\<close> is what the duration probe prints for the
  file found at a path, parsed as a float (\<open>None\<close>: the call or the parse raised).
  \<open>atempo\<close> is what ffmpeg leaves at its output path (\<open>None\<close>: nothing written) and
  whether it exited with status 0.
\<close>

record engine =
  ffprobe :: "wav option \<Rightarrow> rat option"
  atempo :: "rat \<Rightarrow> wav option \<Rightarrow> wav option \<times> bool"

section \<open>pathlib: suffix and with\_suffix\<close>

definition rfind_dot :: "string \<Rightarrow> nat option" where
  "rfind_dot name =
     (if CHR ''.'' \<in> set name
      then Some (length name - 1 - length (takeWhile (\<lambda>c. c \<noteq> CHR ''.'') (rev name)))
      else None)"

definition suffix_of :: "string \<Rightarrow> string" where
  "suffix_of name =
     (case rfind_dot name of
        None \<Rightarrow> []
      | Some i \<Rightarrow> if 0 < i \<and> i < length name - 1 then drop i name else [])"

definition with_suffix :: "path \<Rightarrow> string \<Rightarrow> error + path" where
  "with_suffix p suf =
     (if p = [] \<or> last p = [] then Inl ValueError
      else
        let name = last p; old_suffix = suffix_of name
        in Inr (butlast p @
                [if old_suffix = [] then name @ suf
                 else take (length name - length old_suffix) name @ suf]))"

section \<open>Duration matching (XTTSEngine.adjust\_duration)\<close>

definition move :: "path \<Rightarrow> path \<Rightarrow> world \<Rightarrow> (error + unit) \<times> world" where
  "move src dst w =
     (case files w src of
        None \<Rightarrow> (Inl FileNotFoundError, w)
      | Some c \<Rightarrow> (Inr (), w\<lparr>files := ((files w)(src := None))(dst \<mapsto> c)\<rparr>))"

definition adjust_duration ::
  "engine \<Rightarrow> path \<Rightarrow> rat \<Rightarrow> world \<Rightarrow> (error + unit) \<times> world" where
  "adjust_duration eng audio_path target_duration w =
     (let current_duration =
            (case ffprobe eng (files w audio_path) of Some d \<Rightarrow> d | None \<Rightarrow> 0)
      in
        if current_duration \<le> float_0_1 then (Inr (), w)
        else if target_duration = 0 then (Inl ZeroDivisionError, w)
        else
          let ratio = current_duration / target_duration;
              speed = max (1 / 2) (min 2 ratio)
          in
            if float_0_9 < speed \<and> speed < float_1_1 then (Inr (), w)
            else
              (case with_suffix audio_path ''.temp.wav'' of
                 Inl e \<Rightarrow> (Inl e, w)
               | Inr temp_path \<Rightarrow>
                   (let (written, ok) = atempo eng speed (files w audio_path);
                        w1 = w\<lparr>files :=
                                 (case written of
                                    None \<Rightarrow> files w
                                  | Some out \<Rightarrow> (files w)(temp_path \<mapsto> out)),
                               ffmpeg_calls :=
                                 ffmpeg_calls w @ [Atempo audio_path speed temp_path]\<rparr>
                    in if \<not> ok then (Inl CalledProcessError, w1)
                       else move temp_path audio_path w1)))"

text \<open>A tempo engine that does what it is asked: the output plays \<open>1 / speed\<close> as long.\<close>

definition ideal_engine :: engine where
  "ideal_engine =
     \<lparr>ffprobe = map_option dur,
      atempo = (\<lambda>speed src.
        (map_option (\<lambda>a. a\<lparr>dur := dur a / speed\<rparr>) src, src \<noteq> None))\<rparr>"

text \<open>A tempo engine whose every run fails after writing half of its output.\<close>

definition broken_engine :: engine where
  "broken_engine =
     \<lparr>ffprobe = map_option dur,
      atempo = (\<lambda>speed src.
        (map_option (\<lambda>a. a\<lparr>dur := dur a / (2 * speed)\<rparr>) src, False))\<rparr>"

text \<open>
  Example worlds: one synthesized clip of a given length in the \<open>tts\<close> directory, as
  XTTS writes it (24 kHz, one channel).
\<close>

definition clip_world :: "rat \<Rightarrow> world" where
  "clip_world d =
     \<lparr>files = [[''tts'', ''seg_0000_SPEAKER_00.wav''] \<mapsto> \<lparr>dur = d, sample_rate = 24000, channels = 1, pcm = []\<rparr>],
      ffmpeg_calls = []\<rparr>"

definition broken_world :: world where
  "broken_world =
     \<lparr>files = [[''tts'', ''seg_0000_SPEAKER_00.wav''] \<mapsto> \<lparr>dur = 4, sample_rate = 24000, channels = 1, pcm = [1, 2, 3]\<rparr>],
      ffmpeg_calls = []\<rparr>"

section \<open>Segments (models.Segment)\<close>

record segment =
  seg_id :: int
  start :: rat
  seg_end :: rat
  source_text :: string
  translated_text :: "string option"
  speaker_id :: "string option"
  audio_path :: "path option"

text \<open>The model validator \<open>check_timestamps\<close>, run by every construction of a segment.\<close>

definition check_timestamps :: "segment \<Rightarrow> error + segment" where
  "check_timestamps s = (if seg_end s \<le> start s then Inl ValueError else Inr s)"

section \<open>Transcription and speaker alignment (TranscriptionManager)\<close>

text \<open>What the speech-to-text engine yields for one stretch of speech.\<close>

record asr_segment =
  asr_start :: rat
  asr_end :: rat
  asr_text :: string

text \<open>
  \<open>str.strip()\<close> on the white space characters that a \<open>char\<close> can hold: tab, line
  feed, vertical tab, form feed, carriage return, the four separators \<open>0x1c\<close> to
  \<open>0x1f\<close>, and space. Python also strips the white space beyond ASCII, which a text
  of \<open>char\<close> cannot contain.
\<close>

definition is_space :: "char \<Rightarrow> bool" where
  "is_space c = (of_char c \<in> {9, 10, 11, 12, 13, 28, 29, 30, 31, 32 :: nat})"

definition strip :: "string \<Rightarrow> string" where
  "strip s = rev (dropWhile is_space (rev (dropWhile is_space s)))"

fun transcribe_from :: "int \<Rightarrow> asr_segment list \<Rightarrow> error + segment list" where
  "transcribe_from i [] = Inr []"
| "transcribe_from i (seg # rest) =
     (if asr_end seg - asr_start seg \<le> 0 then transcribe_from (i + 1) rest
      else if strip (asr_text seg) = [] then transcribe_from (i + 1) rest
      else
        (case check_timestamps
                \<lparr>seg_id = i, start = asr_start seg, seg_end = asr_end seg,
                 source_text = strip (asr_text seg), translated_text = None,
                 speaker_id = None, audio_path = None\<rparr> of
           Inl e \<Rightarrow> Inl e
         | Inr s \<Rightarrow>
             (case transcribe_from (i + 1) rest of
                Inl e \<Rightarrow> Inl e
              | Inr segments_list \<Rightarrow> Inr (s # segments_list))))"

text \<open>
  \<open>transcribe\<close>: the engine either raises (loading the model or decoding) or yields its
  segments, which are numbered by \<open>enumerate\<close> from 0.
\<close>

definition transcribe :: "error + asr_segment list \<Rightarrow> error + segment list" where
  "transcribe asr = (case asr of Inl e \<Rightarrow> Inl e | Inr segments_gen \<Rightarrow> transcribe_from 0 segments_gen)"

text \<open>A diarization interval: who speaks from when to when.\<close>

record track =
  t_start :: rat
  t_end :: rat
  label :: string

text \<open>
  What \<open>align_speakers\<close> reads of the cropped annotation: \<open>region.labels()\<close> and the
  tracks in the order \<open>region.itertracks(yield_label=True)\<close> yields them.
\<close>

record region =
  labels :: "string list"
  itertracks :: "track list"

text \<open>
  Modelled from the spec: the diarization library is not part of the repository. The spec
  takes the diarization as a collection of \<open>{start, end, speakerLabel}\<close> intervals and
  lets an interval count for a segment when their overlap
  \<open>max(0, min(segment.end, interval.end) - max(segment.start, interval.start))\<close> is
  positive. The region of a window keeps the intervals that overlap the window, cut to
  the window, in the order of the diarization; its labels are those of the kept
  intervals.
\<close>

definition cropped :: "track list \<Rightarrow> rat \<Rightarrow> rat \<Rightarrow> region" where
  "cropped tracks s e =
     (let kept = map (\<lambda>t. t\<lparr>t_start := max s (t_start t), t_end := min e (t_end t)\<rparr>)
                   (filter (\<lambda>t. max s (t_start t) < min e (t_end t)) tracks)
      in \<lparr>labels = remdups (map label kept), itertracks = kept\<rparr>)"

text \<open>
  What a caller hands to \<open>Annotation.crop\<close> as the support: a \<open>Segment\<close> of the library,
  or, as \<open>align_speakers\<close> does, a \<open>dict(uri=..., start=..., end=...)\<close>, of which the
  two times are kept here.
\<close>

datatype support =
    Segment_support rat rat
  | Dict_support rat rat

text \<open>
  \<open>Annotation.crop\<close> tests its support for the library's \<open>Segment\<close> and \<open>Timeline\<close>
  types and crops to it; for a support of any other type it falls through both tests and
  returns \<open>None\<close>. A diarization object is modelled by its \<open>crop\<close> method.
\<close>

type_synonym diarization = "support \<Rightarrow> region option"

definition crop :: "track list \<Rightarrow> diarization" where
  "crop tracks given =
     (case given of
        Segment_support s e \<Rightarrow> Some (cropped tracks s e)
      | Dict_support s e \<Rightarrow> None)"

text \<open>
  A Python \<open>dict\<close> keeps its keys in insertion order; an assignment to a key that is
  present keeps the key's place.
\<close>

type_synonym ('k, 'v) dict = "('k \<times> 'v) list"

definition dict_get :: "('k, 'v) dict \<Rightarrow> 'k \<Rightarrow> 'v \<Rightarrow> 'v" where
  "dict_get d k dflt = (case map_of d k of Some v \<Rightarrow> v | None \<Rightarrow> dflt)"

fun dict_set :: "('k, 'v) dict \<Rightarrow> 'k \<Rightarrow> 'v \<Rightarrow> ('k, 'v) dict" where
  "dict_set [] k v = [(k, v)]"
| "dict_set ((k', v') # kvs) k v =
     (if k' = k then (k, v) # kvs else (k', v') # dict_set kvs k v)"

text \<open>
  \<open>max(iterable, key=f)\<close>: the running maximum is replaced only by an item whose key is
  strictly greater, so the first of several maximal items is returned.
\<close>

fun max_from :: "('a \<Rightarrow> rat) \<Rightarrow> 'a \<Rightarrow> 'a list \<Rightarrow> 'a" where
  "max_from f best [] = best"
| "max_from f best (x # xs) = max_from f (if f best < f x then x else best) xs"

text \<open>One turn of the accumulation loop of \<open>align_speakers\<close>.\<close>

definition add_overlap :: "segment \<Rightarrow> (string, rat) dict \<Rightarrow> track \<Rightarrow> (string, rat) dict" where
  "add_overlap seg speaker_durations t =
     (let overlap_start = max (start seg) (t_start t);
          overlap_end = min (seg_end seg) (t_end t);
          duration = max 0 (overlap_end - overlap_start)
      in dict_set speaker_durations (label t)
           (dict_get speaker_durations (label t) 0 + duration))"

text \<open>The body of the loop over segments: the speaker chosen for one segment.\<close>

definition dominant_speaker :: "segment \<Rightarrow> region \<Rightarrow> string" where
  "dominant_speaker seg reg =
     (if labels reg = [] then ''SPEAKER_00''
      else
        let speaker_durations = foldl (add_overlap seg) [] (itertracks reg)
        in (case map fst speaker_durations of
              [] \<Rightarrow> ''SPEAKER_00''
            | k # ks \<Rightarrow> max_from (\<lambda>l. dict_get speaker_durations l 0) k ks))"

text \<open>
  \<open>align_speakers\<close> walks the segments, setting \<open>speaker_id\<close> in place. The region is
  whatever \<open>diarization.crop\<close> returns for the dict; \<open>region.labels()\<close> on \<open>None\<close> raises
  \<open>AttributeError\<close>, which leaves the segments before it aligned and the others as they
  were. The result is the outcome and the segment list as the call leaves it.
\<close>

fun align_speakers :: "segment list \<Rightarrow> diarization \<Rightarrow> (error + unit) \<times> segment list" where
  "align_speakers [] diarization = (Inr (), [])"
| "align_speakers (seg # rest) diarization =
     (case diarization (Dict_support (start seg) (seg_end seg)) of
        None \<Rightarrow> (Inl AttributeError, seg # rest)
      | Some region \<Rightarrow>
          (case align_speakers rest diarization of
             (outcome, rest') \<Rightarrow>
               (outcome, seg\<lparr>speaker_id := Some (dominant_speaker seg region)\<rparr> # rest')))"

text \<open>
  \<open>diarize\<close>: loading the pipeline may raise (no credentials), and so may running it.
\<close>

record diarizer =
  load_pipeline :: "error option"
  apply_pipeline :: "error + track list"

definition diarize :: "diarizer \<Rightarrow> error + track list" where
  "diarize d = (case load_pipeline d of Some e \<Rightarrow> Inl e | None \<Rightarrow> apply_pipeline d)"

text \<open>
  \<open>TranscriptionManager.run\<close>: transcribe, then diarize and align inside a \<open>try\<close>. Whatever
  is raised there, by \<open>diarize\<close> or by \<open>align_speakers\<close>, is caught, and every segment is
  given \<open>SPEAKER_00\<close>.
\<close>

definition run :: "error + asr_segment list \<Rightarrow> diarizer \<Rightarrow> error + segment list" where
  "run asr d =
     (case transcribe asr of
        Inl e \<Rightarrow> Inl e
      | Inr segments \<Rightarrow>
          if segments = [] then Inr []
          else
            (case diarize d of
               Inr tracks \<Rightarrow>
                 (case align_speakers segments (crop tracks) of
                    (Inr u, aligned) \<Rightarrow> Inr aligned
                  | (Inl e, partly) \<Rightarrow>
                      Inr (map (\<lambda>seg. seg\<lparr>speaker_id := Some ''SPEAKER_00''\<rparr>) partly))
             | Inl e \<Rightarrow> Inr (map (\<lambda>seg. seg\<lparr>speaker_id := Some ''SPEAKER_00''\<rparr>) segments)))"

text \<open>
  The spec's measure of how much of a segment an interval covers, and the sum of it over
  the intervals of one label.
\<close>

definition overlap :: "segment \<Rightarrow> track \<Rightarrow> rat" where
  "overlap seg t = max 0 (min (seg_end seg) (t_end t) - max (start seg) (t_start t))"

definition accumulated_overlap :: "segment \<Rightarrow> track list \<Rightarrow> string \<Rightarrow> rat" where
  "accumulated_overlap seg diarization l =
     sum_list (map (overlap seg) (filter (\<lambda>t. label t = l) diarization))"

text \<open>Example inputs for speaker alignment.\<close>

definition seg_0_2 :: segment where
  "seg_0_2 = \<lparr>seg_id = 0, start = 0, seg_end = 2, source_text = ''Hi'', translated_text = None,
              speaker_id = None, audio_path = None\<rparr>"

definition tie_diarization :: "track list" where
  "tie_diarization =
     [\<lparr>t_start = 0, t_end = 1, label = ''B''\<rparr>,
      \<lparr>t_start = 1, t_end = 2, label = ''A''\<rparr>,
      \<lparr>t_start = 5, t_end = 9, label = ''C''\<rparr>]"

definition spoken_over :: "track list" where
  "spoken_over =
     [\<lparr>t_start = 0, t_end = 2, label = ''A''\<rparr>,
      \<lparr>t_start = 1, t_end = 3, label = ''B''\<rparr>]"

text \<open>A stand-in whose \<open>crop\<close> takes the dict as if it were the window.\<close>

definition lenient :: "track list \<Rightarrow> diarization" where
  "lenient tracks given =
     (case given of
        Segment_support s e \<Rightarrow> Some (cropped tracks s e)
      | Dict_support s e \<Rightarrow> Some (cropped tracks s e))"

definition far_diarization :: "track list" where
  "far_diarization =
     [\<lparr>t_start = 2, t_end = 4, label = ''A''\<rparr>,
      \<lparr>t_start = 5, t_end = 9, label = ''B''\<rparr>]"

definition two_lines :: "asr_segment list" where
  "two_lines =
     [\<lparr>asr_start = 0, asr_end = 1, asr_text = '' Hi''\<rparr>,
      \<lparr>asr_start = 1, asr_end = 1, asr_text = ''.''\<rparr>,
      \<lparr>asr_start = 3 / 2, asr_end = 4, asr_text = ''there ''\<rparr>]"

definition no_credentials :: diarizer where
  "no_credentials = \<lparr>load_pipeline = Some EngineError, apply_pipeline = Inr []\<rparr>"

definition one_line :: "asr_segment list" where
  "one_line = [\<lparr>asr_start = 0, asr_end = 2, asr_text = ''Hi''\<rparr>]"

definition diarized :: "track list \<Rightarrow> diarizer" where
  "diarized tracks = \<lparr>load_pipeline = None, apply_pipeline = Inr tracks\<rparr>"

section \<open>Timeline assembly (Mixer.create\_mixed\_audio)\<close>

text \<open>\<open>str(i)\<close> for the index that \<open>enumerate\<close> gives a segment.\<close>

definition digit_char :: "nat \<Rightarrow> char" where
  "digit_char n = ''0123456789'' ! n"

function string_of_nat :: "nat \<Rightarrow> string" where
  "string_of_nat n =
     (if n < 10 then [digit_char n]
      else string_of_nat (n div 10) @ [digit_char (n mod 10)])"
  by pat_completeness auto
termination
  by (relation "measure id") auto

declare string_of_nat.simps [simp del]

record stem_paths =
  original :: path
  vocals :: path
  instrumental :: path

text \<open>
  A line \<open>file '<path>'\<close> of the concat list, tagged with what it stands for: a block of
  silence or the clip of a segment.
\<close>

datatype block = Silence path | Speech path

fun block_path :: "block \<Rightarrow> path" where
  "block_path (Silence p) = p"
| "block_path (Speech p) = p"

text \<open>
  The loop variables of \<open>create_mixed_audio\<close>: the cursor, the lines written so far and
  the files on disk.
\<close>

record mix_state =
  current_time :: rat
  concat_list :: "block list"
  disk :: store

definition silence_path :: "path \<Rightarrow> string \<Rightarrow> path" where
  "silence_path work_dir index = work_dir @ [''silence_'' @ index @ ''.wav'']"

text \<open>
  The tools of the mixer are parameters: the duration probe of the original audio; the
  silence generator \<open>ffmpeg -f lavfi -i anullsrc=r=44100:cl=stereo -t duration\<close>, as what
  it leaves at its output path (\<open>None\<close>: nothing) and whether it exited with status 0;
  and the sidechain-compress-and-mix filter graph on the instrumental stem and the voice
  track (\<open>None\<close>: ffmpeg failed).
\<close>

record mixer_tools =
  probe_duration :: "wav option \<Rightarrow> rat option"
  anullsrc :: "rat \<Rightarrow> wav option \<times> bool"
  sidechain_mix :: "wav option \<Rightarrow> wav \<Rightarrow> wav option"

text \<open>
  \<open>get_silence\<close>: a file of that name that is already there is reused as it is;
  otherwise ffmpeg is run with \<open>check=True\<close>, so that a failing run raises.
\<close>

definition get_silence ::
  "mixer_tools \<Rightarrow> path \<Rightarrow> store \<Rightarrow> rat \<Rightarrow> string \<Rightarrow> (error + path) \<times> store" where
  "get_silence tools work_dir fs duration index =
     (let p = silence_path work_dir index
      in if fs p \<noteq> None then (Inr p, fs)
         else
           (let (written, ok) = anullsrc tools duration;
                fs' = (case written of None \<Rightarrow> fs | Some a \<Rightarrow> fs(p \<mapsto> a))
            in if \<not> ok then (Inl CalledProcessError, fs') else (Inr p, fs')))"

text \<open>
  The gap before a segment: silence is written only for more than the float \<open>0.01\<close>.
\<close>

definition pad_gap ::
  "mixer_tools \<Rightarrow> path \<Rightarrow> mix_state \<Rightarrow> nat \<Rightarrow> segment \<Rightarrow> (error + unit) \<times> mix_state" where
  "pad_gap tools work_dir st i seg =
     (let gap = start seg - current_time st
      in if gap > float_0_01
         then
           (case get_silence tools work_dir (disk st) gap (''gap_'' @ string_of_nat i) of
              (Inl e, fs) \<Rightarrow> (Inl e, st\<lparr>disk := fs\<rparr>)
            | (Inr silence, fs) \<Rightarrow>
                (Inr (), st\<lparr>concat_list := concat_list st @ [Silence silence], disk := fs\<rparr>))
         else (Inr (), st))"

text \<open>The body of the loop over \<open>enumerate(segments)\<close>.\<close>

definition mix_step ::
  "mixer_tools \<Rightarrow> path \<Rightarrow> mix_state \<Rightarrow> nat \<Rightarrow> segment \<Rightarrow> (error + unit) \<times> mix_state" where
  "mix_step tools work_dir st i seg =
     (case audio_path seg of
        None \<Rightarrow> (Inr (), st)
      | Some p \<Rightarrow>
          if disk st p = None then (Inr (), st)
          else
            (case pad_gap tools work_dir st i seg of
               (Inl e, st1) \<Rightarrow> (Inl e, st1)
             | (Inr u, st1) \<Rightarrow>
                 (Inr (), st1\<lparr>concat_list := concat_list st1 @ [Speech p],
                              current_time := seg_end seg\<rparr>)))"

fun assemble_from ::
  "mixer_tools \<Rightarrow> path \<Rightarrow> nat \<Rightarrow> mix_state \<Rightarrow> segment list \<Rightarrow> (error + unit) \<times> mix_state" where
  "assemble_from tools work_dir i st [] = (Inr (), st)"
| "assemble_from tools work_dir i st (seg # segs) =
     (case mix_step tools work_dir st i seg of
        (Inl e, st1) \<Rightarrow> (Inl e, st1)
      | (Inr u, st1) \<Rightarrow> assemble_from tools work_dir (Suc i) st1 segs)"

text \<open>The loop, then the final gap up to the total duration.\<close>

definition build_concat_list ::
  "mixer_tools \<Rightarrow> path \<Rightarrow> rat \<Rightarrow> segment list \<Rightarrow> store \<Rightarrow> (error + unit) \<times> mix_state" where
  "build_concat_list tools work_dir total_duration segments fs =
     (case assemble_from tools work_dir 0
             \<lparr>current_time = 0, concat_list = [], disk = fs\<rparr> segments of
        (Inl e, st) \<Rightarrow> (Inl e, st)
      | (Inr u, st) \<Rightarrow>
          (let remaining = total_duration - current_time st
           in if remaining > float_0_01
              then
                (case get_silence tools work_dir (disk st) remaining ''end'' of
                   (Inl e, fs') \<Rightarrow> (Inl e, st\<lparr>disk := fs'\<rparr>)
                 | (Inr silence, fs') \<Rightarrow>
                     (Inr (), st\<lparr>concat_list := concat_list st @ [Silence silence],
                                 disk := fs'\<rparr>))
              else (Inr (), st)))"

text \<open>
  The concat demuxer with \<open>-c copy\<close> copies the samples of the listed files, one file
  after the other, under the header of the first: the output holds the bytes of all of
  them and plays them at the byte rate of the first. It fails when the list is empty or
  when a listed file is missing.
\<close>

definition stream_bytes :: "store \<Rightarrow> path list \<Rightarrow> rat" where
  "stream_bytes fs ps =
     sum_list (map (\<lambda>p. case fs p of Some a \<Rightarrow> dur a * byte_rate a | None \<Rightarrow> 0) ps)"

definition played :: "store \<Rightarrow> path list \<Rightarrow> rat" where
  "played fs ps =
     (case ps of
        [] \<Rightarrow> 0
      | p # rest \<Rightarrow>
          (case fs p of None \<Rightarrow> 0 | Some first \<Rightarrow> stream_bytes fs ps / byte_rate first))"

definition concat_files :: "store \<Rightarrow> path list \<Rightarrow> error + wav" where
  "concat_files fs ps =
     (case ps of
        [] \<Rightarrow> Inl CalledProcessError
      | p # rest \<Rightarrow>
          (case fs p of
             None \<Rightarrow> Inl CalledProcessError
           | Some first \<Rightarrow>
               if list_ex (\<lambda>q. fs q = None) rest then Inl CalledProcessError
               else Inr \<lparr>dur = played fs ps,
                         sample_rate = sample_rate first,
                         channels = channels first,
                         pcm = concat (map (\<lambda>q. case fs q of Some a \<Rightarrow> pcm a | None \<Rightarrow> [])
                                         ps)\<rparr>))"

text \<open>
  The first half of \<open>create_mixed_audio\<close>: the concat list, and the voice track that
  concatenating it gives (the files on disk are returned with it).
\<close>

definition voice_track ::
  "mixer_tools \<Rightarrow> path \<Rightarrow> rat \<Rightarrow> segment list \<Rightarrow> store \<Rightarrow> (error + wav) \<times> store" where
  "voice_track tools work_dir total_duration segments fs =
     (case build_concat_list tools work_dir total_duration segments fs of
        (Inl e, st) \<Rightarrow> (Inl e, disk st)
      | (Inr u, st) \<Rightarrow>
          (concat_files (disk st) (map block_path (concat_list st)), disk st))"

definition create_mixed_audio ::
  "mixer_tools \<Rightarrow> path \<Rightarrow> stem_paths \<Rightarrow> segment list \<Rightarrow> path \<Rightarrow> store \<Rightarrow> (error + unit) \<times> store"
where
  "create_mixed_audio tools work_dir stems segments output_path fs =
     (let total_duration =
            (case probe_duration tools (fs (original stems)) of
               Some d \<Rightarrow> d
             | None \<Rightarrow> if segments = [] then 0 else seg_end (last segments))
      in case voice_track tools work_dir total_duration segments fs of
           (Inl e, fs0) \<Rightarrow> (Inl e, fs0)
         | (Inr voice, fs0) \<Rightarrow>
             (let fs1 = fs0(work_dir @ [''full_voice_track.wav''] \<mapsto> voice)
              in case sidechain_mix tools (fs1 (instrumental stems)) voice of
                   None \<Rightarrow> (Inl CalledProcessError, fs1)
                 | Some mixed \<Rightarrow> (Inr (), fs1(output_path \<mapsto> mixed))))"

text \<open>
  Where in the voice track the clip of a segment begins: the playing time of the blocks
  written before it, the gap silence included (\<open>None\<close>: the silence could not be made).
\<close>

definition placement ::
  "mixer_tools \<Rightarrow> path \<Rightarrow> mix_state \<Rightarrow> nat \<Rightarrow> segment \<Rightarrow> rat option" where
  "placement tools work_dir st i seg =
     (case pad_gap tools work_dir st i seg of
        (Inl e, st1) \<Rightarrow> None
      | (Inr u, st1) \<Rightarrow> Some (played (disk st1) (map block_path (concat_list st1))))"








text \<open>
  The playing time of the blocks written so far, as the voice track will play them, and
  the sum of the playing times of their files.
\<close>

definition written :: "mix_state \<Rightarrow> rat" where
  "written st = played (disk st) (map block_path (concat_list st))"

definition nominal :: "store \<Rightarrow> path list \<Rightarrow> rat" where
  "nominal fs ps = sum_list (map (\<lambda>p. case fs p of Some a \<Rightarrow> dur a | None \<Rightarrow> 0) ps)"




text \<open>Example inputs for timeline assembly.\<close>

definition clip_path :: "string \<Rightarrow> path" where
  "clip_path name = [''work'', ''tts'', name]"

definition dubbed :: "int \<Rightarrow> rat \<Rightarrow> rat \<Rightarrow> path option \<Rightarrow> segment" where
  "dubbed i s e p =
     \<lparr>seg_id = i, start = s, seg_end = e, source_text = ''Hi'', translated_text = Some ''Bonjour'',
      speaker_id = Some ''SPEAKER_00'', audio_path = p\<rparr>"

text \<open>A silent clip in the format of the silence files.\<close>

definition silent_clip :: "rat \<Rightarrow> wav" where
  "silent_clip d = \<lparr>dur = d, sample_rate = 44100, channels = 2, pcm = []\<rparr>"

text \<open>
  The stems of a film of three seconds, and tools that do what they are asked: the probe
  reports the playing time, the silence generator delivers the duration asked, and the
  mix lasts as long as the instrumental stem (the first input of the filter graph).
\<close>

definition film_stems :: stem_paths where
  "film_stems =
     \<lparr>original = [''work'', ''film.wav''],
      vocals = [''work'', ''stems'', ''vocals.wav''],
      instrumental = [''work'', ''stems'', ''no_vocals.wav'']\<rparr>"

definition ffmpeg_tools :: mixer_tools where
  "ffmpeg_tools =
     \<lparr>probe_duration = map_option dur,
      anullsrc = (\<lambda>d. (Some (silent_clip d), True)),
      sidechain_mix = (\<lambda>bed track. map_option (\<lambda>b. b\<lparr>pcm := []\<rparr>) bed)\<rparr>"





text \<open>Two segments listed against their start times.\<close>

definition unsorted_segments :: "segment list" where
  "unsorted_segments =
     [dubbed 0 5 6 (Some (clip_path ''seg_0000_SPEAKER_00.wav'')),
      dubbed 1 0 1 (Some (clip_path ''seg_0001_SPEAKER_00.wav''))]"

definition unsorted_store :: store where
  "unsorted_store =
     [clip_path ''seg_0000_SPEAKER_00.wav'' \<mapsto> silent_clip 1,
      clip_path ''seg_0001_SPEAKER_00.wav'' \<mapsto> silent_clip 1]"

text \<open>The loop after a segment that ended at 6 s.\<close>

definition after_six :: mix_state where
  "after_six =
     \<lparr>current_time = 6,
      concat_list = [Silence [''work'', ''silence_gap_0.wav''],
                     Speech (clip_path ''seg_0000_SPEAKER_00.wav'')],
      disk = unsorted_store([''work'', ''silence_gap_0.wav''] \<mapsto> silent_clip 5)\<rparr>"

text \<open>
  One second of speech as XTTS writes it (24 kHz, one channel), from 1 s to 2 s of three
  seconds of original audio.
\<close>

definition xtts_segment :: "segment list" where
  "xtts_segment = [dubbed 0 1 2 (Some (clip_path ''seg_0000_SPEAKER_00.wav''))]"

definition xtts_store :: store where
  "xtts_store =
     [original film_stems \<mapsto> silent_clip 3,
      instrumental film_stems \<mapsto> silent_clip 3,
      clip_path ''seg_0000_SPEAKER_00.wav'' \<mapsto>
        \<lparr>dur = 1, sample_rate = 24000, channels = 1, pcm = []\<rparr>]"

text \<open>
  The loop after a segment from 5 ms to 1 s whose clip plays 0.995 s, and a segment with
  a clip that starts at 0.996 s, before the cursor.
\<close>

definition after_one :: mix_state where
  "after_one =
     \<lparr>current_time = 1,
      concat_list = [Speech (clip_path ''seg_0000_SPEAKER_00.wav'')],
      disk = [clip_path ''seg_0000_SPEAKER_00.wav'' \<mapsto> silent_clip (199 / 200),
              clip_path ''seg_0001_SPEAKER_00.wav'' \<mapsto> silent_clip 1]\<rparr>"

definition early_segments :: "segment list" where
  "early_segments =
     [dubbed 0 (1 / 200) 1 (Some (clip_path ''seg_0000_SPEAKER_00.wav'')),
      dubbed 1 (249 / 250) 2 (Some (clip_path ''seg_0001_SPEAKER_00.wav''))]"

section \<open>Speech synthesis (XTTSEngine.synthesize) and the synthesis loop (Pipeline.run)\<close>

definition ISO_TO_XTTS :: "(string \<times> string) list" where
  "ISO_TO_XTTS =
     [(''en'', ''en''), (''es'', ''es''), (''fr'', ''fr''), (''de'', ''de''), (''it'', ''it''),
      (''pt'', ''pt''), (''pl'', ''pl''), (''tr'', ''tr''), (''ru'', ''ru''), (''nl'', ''nl''),
      (''cs'', ''cs''), (''ar'', ''ar''), (''zh'', ''zh-cn''), (''ja'', ''ja''), (''ko'', ''ko''),
      (''hi'', ''hi'')]"

definition get_xtts_code :: "string \<Rightarrow> error + string" where
  "get_xtts_code iso_code =
     (case map_of ISO_TO_XTTS iso_code of None \<Rightarrow> Inl ValueError | Some code \<Rightarrow> Inr code)"

text \<open>
  The voice-synthesis engine is a parameter: loading the model may raise, and
  \<open>tts_to_file\<close>, given the text, the reference audio and the language code, leaves a file
  at the output path or not and returns normally or raises.
\<close>

record tts_tools =
  load_model :: "error option"
  tts_to_file :: "string \<Rightarrow> wav \<Rightarrow> string \<Rightarrow> wav option \<times> bool"

text \<open>The fields of an \<open>XTTSEngine\<close> that \<open>synthesize\<close> reads.\<close>

record xtts_engine =
  speaker_profiles :: "string \<rightharpoonup> path"
  default_speaker_wav :: path

definition synthesize ::
  "tts_tools \<Rightarrow> xtts_engine \<Rightarrow> segment \<Rightarrow> string \<Rightarrow> path \<Rightarrow> world \<Rightarrow> (error + unit) \<times> world"
where
  "synthesize tts x segment target_lang output_path w =
     (case load_model tts of
        Some e \<Rightarrow> (Inl e, w)
      | None \<Rightarrow>
          (case translated_text segment of
             None \<Rightarrow> (Inr (), w)
           | Some text \<Rightarrow>
               if text = [] then (Inr (), w)
               else
                 (let speaker_wav =
                        (case (case speaker_id segment of
                                 None \<Rightarrow> None
                               | Some spk \<Rightarrow> speaker_profiles x spk) of
                           None \<Rightarrow> default_speaker_wav x
                         | Some p \<Rightarrow> p)
                  in case files w speaker_wav of
                       None \<Rightarrow> (Inl ValueError, w)
                     | Some reference \<Rightarrow>
                         (case get_xtts_code target_lang of
                            Inl e \<Rightarrow> (Inl e, w)
                          | Inr lang_code \<Rightarrow>
                              (let (out, ok) = tts_to_file tts text reference lang_code;
                                   w1 = w\<lparr>files :=
                                            (case out of
                                               None \<Rightarrow> files w
                                             | Some a \<Rightarrow> (files w)(output_path \<mapsto> a))\<rparr>
                               in if \<not> ok then (Inl EngineError, w1)
                                  else if files w1 output_path = None then (Inl RuntimeError, w1)
                                  else (Inr (), w1))))))"

text \<open>The file name \<open>f"seg_{seg.id:04d}_{seg.speaker_id}.wav"\<close>.\<close>

definition zero_pad :: "nat \<Rightarrow> string \<Rightarrow> string" where
  "zero_pad width s = replicate (width - length s) CHR ''0'' @ s"

definition format_04d :: "int \<Rightarrow> string" where
  "format_04d i =
     (if i < 0 then CHR ''-'' # zero_pad 3 (string_of_nat (nat (- i)))
      else zero_pad 4 (string_of_nat (nat i)))"

definition output_name :: "segment \<Rightarrow> string" where
  "output_name seg =
     ''seg_'' @ format_04d (seg_id seg) @ ''_'' @
     (case speaker_id seg of None \<Rightarrow> ''None'' | Some spk \<Rightarrow> spk) @ ''.wav''"

text \<open>
  What the synthesis loop of \<open>Pipeline.run\<close> is given: the engines, the speaker
  profiles, the target language and the \<open>tts\<close> directory.
\<close>

record synthesis =
  tts_engine :: tts_tools
  tempo_engine :: engine
  xtts :: xtts_engine
  target_language :: string
  tts_dir :: path

text \<open>
  The body of the loop: a segment without translated text is passed over; an exception
  of \<open>synthesize\<close> or \<open>adjust_duration\<close> is caught and logged, and only when both return
  is the audio handle set.
\<close>

definition process_segment :: "synthesis \<Rightarrow> segment \<Rightarrow> world \<Rightarrow> segment \<times> world" where
  "process_segment cfg seg w =
     (case translated_text seg of
        None \<Rightarrow> (seg, w)
      | Some text \<Rightarrow>
          if text = [] then (seg, w)
          else
            (let output_path = tts_dir cfg @ [output_name seg]
             in case synthesize (tts_engine cfg) (xtts cfg) seg (target_language cfg) output_path w of
                  (Inl e, w1) \<Rightarrow> (seg, w1)
                | (Inr u, w1) \<Rightarrow>
                    (case adjust_duration (tempo_engine cfg) output_path (seg_end seg - start seg) w1 of
                       (Inl e, w2) \<Rightarrow> (seg, w2)
                     | (Inr u', w2) \<Rightarrow> (seg\<lparr>audio_path := Some output_path\<rparr>, w2))))"

fun synthesize_all :: "synthesis \<Rightarrow> segment list \<Rightarrow> world \<Rightarrow> segment list \<times> world" where
  "synthesize_all cfg [] w = ([], w)"
| "synthesize_all cfg (seg # segs) w =
     (let (seg', w1) = process_segment cfg seg w;
          (segs', w2) = synthesize_all cfg segs w1
      in (seg' # segs', w2))"


text \<open>
  Steps 5 and 6 of \<open>Pipeline.run\<close>: the synthesis loop, then the mixer on the same list
  of segments.
\<close>

definition synthesize_and_mix ::
  "synthesis \<Rightarrow> mixer_tools \<Rightarrow> path \<Rightarrow> stem_paths \<Rightarrow> segment list \<Rightarrow> world \<Rightarrow>
     (error + unit) \<times> store"
where
  "synthesize_and_mix cfg tools work_dir stems segments w =
     (let (segments', w') = synthesize_all cfg segments w
      in create_mixed_audio tools work_dir stems segments' (work_dir @ [''mixed_audio.wav''])
           (files w'))"











section \<open>Properties of duration matching\<close>




lemma float_0_1_bounds: "1 / 10 < float_0_1 \<and> float_0_1 < 1 / 2"
  by (simp add: float_0_1_def)


lemma suffix_of_shape:
  "suffix_of name = [] \<or> (\<exists>ext. suffix_of name = CHR ''.'' # ext \<and> CHR ''.'' \<notin> set ext)"
proof (cases "CHR ''.'' \<in> set name")
  case False
  then show ?thesis by (simp add: suffix_of_def rfind_dot_def)
next
  case True
  define P where "P = (\<lambda>c. c \<noteq> CHR ''.'')"
  define e where "e = takeWhile P (rev name)"
  define r where "r = dropWhile P (rev name)"
  have split: "rev name = e @ r" by (simp add: e_def r_def)
  have "r \<noteq> []" using True by (auto simp: r_def P_def dropWhile_eq_Nil_conv)
  then obtain r' where r: "r = CHR ''.'' # r'"
    using hd_dropWhile[of P "rev name"] by (cases r) (auto simp: r_def P_def)
  have name: "name = rev r' @ CHR ''.'' # rev e"
    using split r by (metis rev_append rev.simps(2) rev_rev_ident append.assoc append_Cons append_Nil)
  have nodot: "CHR ''.'' \<notin> set (rev e)"
    using set_takeWhileD[of "CHR ''.''" P "rev name"] by (auto simp: e_def P_def)
  have len: "length name - 1 - length e = length r'" using name by simp
  have "drop (length r') name = CHR ''.'' # rev e" using name by simp
  then show ?thesis using True nodot len
    by (auto simp: suffix_of_def rfind_dot_def e_def P_def)
qed

lemma with_suffix_temp_differs:
  assumes "with_suffix p ''.temp.wav'' = Inr q"
  shows "q \<noteq> p"
proof
  assume eq: "q = p"
  from assms have ne: "p \<noteq> []" "last p \<noteq> []"
    by (auto simp: with_suffix_def split: if_splits)
  define name where "name = last p"
  define old where "old = suffix_of name"
  from assms ne have q: "q = butlast p @ [if old = [] then name @ ''.temp.wav''
       else take (length name - length old) name @ ''.temp.wav'']"
    by (auto simp: with_suffix_def Let_def name_def old_def)
  have "last q = name" using eq name_def by simp
  with q have nm: "(if old = [] then name @ ''.temp.wav''
       else take (length name - length old) name @ ''.temp.wav'') = name" by simp
  show False
  proof (cases "old = []")
    case True
    with nm have "name @ ''.temp.wav'' = name" by simp
    then show False by simp
  next
    case False
    then obtain ext where ext: "old = CHR ''.'' # ext" "CHR ''.'' \<notin> set ext"
      using suffix_of_shape[of name] by (auto simp: old_def)
    have "\<exists>i. old = drop i name \<and> i < length name" using False
      by (auto simp: old_def suffix_of_def split: option.splits if_splits)
    then obtain i where i: "old = drop i name" "i < length name" by blast
    then have "length name - length old = i" by simp
    with nm False have "take i name @ ''.temp.wav'' = name" by simp
    also have "name = take i name @ old" using i by simp
    finally have "old = ''.temp.wav''" by simp
    with ext show False by auto
  qed
qed



lemma ad_probe_failed:
  "ffprobe eng (files w p) = None \<Longrightarrow> adjust_duration eng p target w = (Inr (), w)"
  by (simp add: adjust_duration_def float_0_1_def)

lemma ad_too_short:
  "ffprobe eng (files w p) = Some c \<Longrightarrow> c \<le> float_0_1 \<Longrightarrow>
   adjust_duration eng p target w = (Inr (), w)"
  by (simp add: adjust_duration_def)

lemma ad_zero_target:
  "ffprobe eng (files w p) = Some c \<Longrightarrow> \<not> c \<le> float_0_1 \<Longrightarrow>
   adjust_duration eng p 0 w = (Inl ZeroDivisionError, w)"
  by (simp add: adjust_duration_def)

lemma ad_close_enough:
  assumes "ffprobe eng (files w p) = Some c" "\<not> c \<le> float_0_1" "target \<noteq> 0"
    and "speed = max (1 / 2) (min 2 (c / target))"
    and "float_0_9 < speed \<and> speed < float_1_1"
  shows "adjust_duration eng p target w = (Inr (), w)"
  using assms(1,2,3) assms(5)[unfolded assms(4)]
  unfolding adjust_duration_def Let_def by (simp only: option.case if_False if_True simp_thms)

lemma ad_stretch:
  assumes "ffprobe eng (files w p) = Some c" "\<not> c \<le> float_0_1" "target \<noteq> 0"
    and "speed = max (1 / 2) (min 2 (c / target))"
    and "\<not> (float_0_9 < speed \<and> speed < float_1_1)"
  shows "adjust_duration eng p target w =
     (case with_suffix p ''.temp.wav'' of
        Inl e \<Rightarrow> (Inl e, w)
      | Inr temp_path \<Rightarrow>
          (let (written, ok) = atempo eng speed (files w p);
               w1 = w\<lparr>files :=
                        (case written of
                           None \<Rightarrow> files w
                         | Some out \<Rightarrow> (files w)(temp_path \<mapsto> out)),
                      ffmpeg_calls := ffmpeg_calls w @ [Atempo p speed temp_path]\<rparr>
           in if \<not> ok then (Inl CalledProcessError, w1)
              else move temp_path p w1))"
  using assms(1,2,3) assms(5)[unfolded assms(4)]
  unfolding adjust_duration_def Let_def assms(4) by (simp only: option.case if_False if_True simp_thms)


lemma move_calls: "ffmpeg_calls (snd (move a b w)) = ffmpeg_calls w"
  by (simp add: move_def split: option.splits)

lemma ad_stretch_calls:
  assumes "ffprobe eng (files w p) = Some c" "\<not> c \<le> float_0_1" "target \<noteq> 0"
    and "speed = max (1 / 2) (min 2 (c / target))"
    and "\<not> (float_0_9 < speed \<and> speed < float_1_1)"
  shows "ffmpeg_calls (snd (adjust_duration eng p target w)) = ffmpeg_calls w @
     (case with_suffix p ''.temp.wav'' of
        Inl e \<Rightarrow> []
      | Inr tmp \<Rightarrow> [Atempo p speed tmp])"
  unfolding ad_stretch[OF assms]
  by (simp add: move_calls Let_def split: sum.splits prod.splits)

text \<open>The calls of one run, whatever the branch taken.\<close>

lemma adjust_duration_calls:
  "ffmpeg_calls (snd (adjust_duration eng p target w)) = ffmpeg_calls w \<or>
   (\<exists>c tmp. ffprobe eng (files w p) = Some c \<and> float_0_1 < c \<and> target \<noteq> 0 \<and>
      with_suffix p ''.temp.wav'' = Inr tmp \<and>
      \<not> (float_0_9 < max (1 / 2) (min 2 (c / target)) \<and>
         max (1 / 2) (min 2 (c / target)) < float_1_1) \<and>
      ffmpeg_calls (snd (adjust_duration eng p target w)) =
        ffmpeg_calls w @ [Atempo p (max (1 / 2) (min 2 (c / target))) tmp])"
proof (cases "ffprobe eng (files w p)")
  case None
  then show ?thesis by (simp add: ad_probe_failed)
next
  case (Some c)
  show ?thesis
  proof (cases "c \<le> float_0_1")
    case True
    with Some show ?thesis by (simp add: ad_too_short)
  next
    case short: False
    show ?thesis
    proof (cases "target = 0")
      case True
      with Some short show ?thesis by (simp add: ad_zero_target)
    next
      case nz: False
      define speed where "speed = max (1 / 2) (min 2 (c / target))"
      show ?thesis
      proof (cases "float_0_9 < speed \<and> speed < float_1_1")
        case True
        from ad_close_enough[OF Some short nz speed_def True] show ?thesis by simp
      next
        case far: False
        note calls = ad_stretch_calls[OF Some short nz speed_def far]
        show ?thesis
        proof (cases "with_suffix p ''.temp.wav''")
          case (Inl e)
          with calls show ?thesis by simp
        next
          case (Inr tmp)
          with calls have "ffmpeg_calls (snd (adjust_duration eng p target w)) =
              ffmpeg_calls w @ [Atempo p speed tmp]" by simp
          moreover have "float_0_1 < c" using short by simp
          ultimately show ?thesis using Some nz Inr far unfolding speed_def by blast
        qed
      qed
    qed
  qed
qed





lemma ws_example: "with_suffix [''tts'', ''seg_0000_SPEAKER_00.wav''] ''.temp.wav'' =
          Inr [''tts'', ''seg_0000_SPEAKER_00.temp.wav'']"
    by (simp add: with_suffix_def suffix_of_def rfind_dot_def)


lemma clamp_range: "1 / 2 \<le> max (1 / 2) (min 2 (x::rat)) \<and> max (1 / 2) (min 2 x) \<le> 2"
  by linarith

text \<open>
  Claim C6. Every tempo factor that \<open>adjust_duration\<close> hands to ffmpeg lies in
  \<open>[0.5, 2.0]\<close> and is the clamped ratio of measured to target duration; a ratio outside
  that range is not rejected: the tempo change is requested with the nearer bound.
\<close>

theorem adjust_duration_tempo_in_range:
  assumes "0 < target"
  shows "\<exists>new. ffmpeg_calls (snd (adjust_duration eng p target w)) = ffmpeg_calls w @ new \<and>
      (\<forall>src s dst. Atempo src s dst \<in> set new \<longrightarrow>
         1 / 2 \<le> s \<and> s \<le> 2 \<and>
         (\<exists>current. ffprobe eng (files w p) = Some current \<and>
                    s = max (1 / 2) (min 2 (current / target)))) \<and>
      (\<forall>current tmp.
         ffprobe eng (files w p) = Some current \<and> float_0_1 < current \<and>
         (current / target < 1 / 2 \<or> 2 < current / target) \<and>
         with_suffix p ''.temp.wav'' = Inr tmp \<longrightarrow>
         new = [Atempo p (if 2 < current / target then 2 else 1 / 2) tmp])"
proof -
  let ?calls = "ffmpeg_calls (snd (adjust_duration eng p target w))"
  from adjust_duration_calls[of eng p target w]
  obtain new where new: "?calls = ffmpeg_calls w @ new"
    and shape: "new = [] \<or> (\<exists>c tmp. ffprobe eng (files w p) = Some c \<and>
                  new = [Atempo p (max (1 / 2) (min 2 (c / target))) tmp])"
    by (metis append_Nil2)
  have c2: "\<forall>src s dst. Atempo src s dst \<in> set new \<longrightarrow>
         1 / 2 \<le> s \<and> s \<le> 2 \<and>
         (\<exists>current. ffprobe eng (files w p) = Some current \<and>
                    s = max (1 / 2) (min 2 (current / target)))"
  proof (intro allI impI)
    fix src s dst
    assume "Atempo src s dst \<in> set new"
    with shape obtain c where c: "ffprobe eng (files w p) = Some c"
      and s: "s = max (1 / 2) (min 2 (c / target))" by auto
    from clamp_range[of "c / target"] have "1 / 2 \<le> s \<and> s \<le> 2" unfolding s .
    with c s show "1 / 2 \<le> s \<and> s \<le> 2 \<and>
         (\<exists>current. ffprobe eng (files w p) = Some current \<and>
                    s = max (1 / 2) (min 2 (current / target)))" by blast
  qed
  have c3: "\<forall>current tmp.
         ffprobe eng (files w p) = Some current \<and> float_0_1 < current \<and>
         (current / target < 1 / 2 \<or> 2 < current / target) \<and>
         with_suffix p ''.temp.wav'' = Inr tmp \<longrightarrow>
         new = [Atempo p (if 2 < current / target then 2 else 1 / 2) tmp]"
  proof (intro allI impI)
    fix current tmp
    assume h: "ffprobe eng (files w p) = Some current \<and> float_0_1 < current \<and>
         (current / target < 1 / 2 \<or> 2 < current / target) \<and>
         with_suffix p ''.temp.wav'' = Inr tmp"
    define speed where "speed = max (1 / 2) (min 2 (current / target))"
    from h have pr: "ffprobe eng (files w p) = Some current"
      and long: "\<not> current \<le> float_0_1"
      and out: "current / target < 1 / 2 \<or> 2 < current / target"
      and ws: "with_suffix p ''.temp.wav'' = Inr tmp" by auto
    have nz: "target \<noteq> 0" using assms by simp
    have sp: "speed = (if 2 < current / target then 2 else 1 / 2)"
      using out unfolding speed_def by (auto simp only: max_def min_def split: if_splits)
    have far: "\<not> (float_0_9 < speed \<and> speed < float_1_1)"
      unfolding sp by (simp add: float_0_9_def float_1_1_def)
    from ad_stretch_calls[OF pr long nz speed_def far] ws
    have "?calls = ffmpeg_calls w @ [Atempo p speed tmp]" by simp
    with new sp show "new = [Atempo p (if 2 < current / target then 2 else 1 / 2) tmp]"
      by simp
  qed
  from new c2 c3 show ?thesis by blast
qed

theorem adjust_duration_tempo_in_range_witness:
  "(0::rat) < 1 \<and>
   ffmpeg_calls (snd (adjust_duration ideal_engine [''tts'', ''seg_0000_SPEAKER_00.wav''] 1
                        (clip_world 4))) =
     [Atempo [''tts'', ''seg_0000_SPEAKER_00.wav''] 2 [''tts'', ''seg_0000_SPEAKER_00.temp.wav'']]"
proof -
  have h: "(0::rat) < 1" by simp
  have ws: "with_suffix [''tts'', ''seg_0000_SPEAKER_00.wav''] ''.temp.wav'' =
          Inr [''tts'', ''seg_0000_SPEAKER_00.temp.wav'']"
    by (simp add: with_suffix_def suffix_of_def rfind_dot_def)
  have pr: "ffprobe ideal_engine (files (clip_world 4) [''tts'', ''seg_0000_SPEAKER_00.wav'']) = Some 4"
    by (simp add: ideal_engine_def clip_world_def)
  have long: "float_0_1 < 4" by (simp add: float_0_1_def)
  from adjust_duration_tempo_in_range[OF h, of ideal_engine "[''tts'', ''seg_0000_SPEAKER_00.wav'']" "clip_world 4"]
  obtain new where
    a: "ffmpeg_calls (snd (adjust_duration ideal_engine [''tts'', ''seg_0000_SPEAKER_00.wav''] 1 (clip_world 4))) =
        ffmpeg_calls (clip_world 4) @ new"
    and b: "\<forall>current tmp.
         ffprobe ideal_engine (files (clip_world 4) [''tts'', ''seg_0000_SPEAKER_00.wav'']) = Some current \<and> float_0_1 < current \<and>
         (current / 1 < 1 / 2 \<or> 2 < current / 1) \<and>
         with_suffix [''tts'', ''seg_0000_SPEAKER_00.wav''] ''.temp.wav'' = Inr tmp \<longrightarrow>
         new = [Atempo [''tts'', ''seg_0000_SPEAKER_00.wav''] (if 2 < current / 1 then 2 else 1 / 2) tmp]"
    by blast
  from b pr ws long have "new = [Atempo [''tts'', ''seg_0000_SPEAKER_00.wav''] 2 [''tts'', ''seg_0000_SPEAKER_00.temp.wav'']]"
    by simp
  with a h show ?thesis by (simp add: clip_world_def)
qed


text \<open>
  Claim C9. The tempo-changed audio is written to a temporary path that differs from the
  clip's path, and the clip is replaced only by a swap that follows a successful run.
  Whenever \<open>adjust_duration\<close> starts ffmpeg, the output path is the clip's path with the
  suffix \<open>.temp.wav\<close> and is not the clip's path. When that run fails, the call raises,
  the clip is what it was, and no file other than the temporary one has changed. When
  that run succeeds and has written its output, the call returns normally, the clip is
  the output, the temporary file is gone, and no other file has changed.
\<close>

theorem adjust_duration_swap_after_success:
  assumes calls: "ffmpeg_calls (snd (adjust_duration eng p target w)) =
                    ffmpeg_calls w @ [Atempo src s tmp]"
  shows "src = p \<and> with_suffix p ''.temp.wav'' = Inr tmp \<and> tmp \<noteq> p \<and>
         (\<not> snd (atempo eng s (files w p)) \<longrightarrow>
            fst (adjust_duration eng p target w) = Inl CalledProcessError \<and>
            files (snd (adjust_duration eng p target w)) p = files w p \<and>
            (\<forall>q. q \<noteq> tmp \<longrightarrow> files (snd (adjust_duration eng p target w)) q = files w q)) \<and>
         (\<forall>out. atempo eng s (files w p) = (Some out, True) \<longrightarrow>
            fst (adjust_duration eng p target w) = Inr () \<and>
            files (snd (adjust_duration eng p target w)) p = Some out \<and>
            files (snd (adjust_duration eng p target w)) tmp = None \<and>
            (\<forall>q. q \<noteq> tmp \<and> q \<noteq> p \<longrightarrow>
               files (snd (adjust_duration eng p target w)) q = files w q))"
proof -
  from adjust_duration_calls[of eng p target w] calls
  obtain c tmp' where pr: "ffprobe eng (files w p) = Some c"
    and long: "float_0_1 < c" and nz: "target \<noteq> 0"
    and ws: "with_suffix p ''.temp.wav'' = Inr tmp'"
    and far: "\<not> (float_0_9 < max (1 / 2) (min 2 (c / target)) \<and>
                 max (1 / 2) (min 2 (c / target)) < float_1_1)"
    and eq: "ffmpeg_calls w @ [Atempo src s tmp] =
             ffmpeg_calls w @ [Atempo p (max (1 / 2) (min 2 (c / target))) tmp']"
    by auto
  from eq have src: "src = p" and s: "s = max (1 / 2) (min 2 (c / target))"
    and tmp: "tmp' = tmp" by simp_all
  from long have long': "\<not> c \<le> float_0_1" by simp
  from with_suffix_temp_differs[OF ws] tmp have ne: "tmp \<noteq> p" by simp
  note run = ad_stretch[OF pr long' nz s far[folded s]]
  have failing: "fst (adjust_duration eng p target w) = Inl CalledProcessError \<and>
            files (snd (adjust_duration eng p target w)) p = files w p \<and>
            (\<forall>q. q \<noteq> tmp \<longrightarrow> files (snd (adjust_duration eng p target w)) q = files w q)"
    if failed: "\<not> snd (atempo eng s (files w p))"
  proof -
    obtain written ok where at: "atempo eng s (files w p) = (written, ok)"
      by (cases "atempo eng s (files w p)")
    with failed have ok: "\<not> ok" by simp
    have res: "adjust_duration eng p target w =
       (Inl CalledProcessError,
        w\<lparr>files := (case written of None \<Rightarrow> files w | Some out \<Rightarrow> (files w)(tmp \<mapsto> out)),
          ffmpeg_calls := ffmpeg_calls w @ [Atempo p s tmp]\<rparr>)"
      unfolding run using ws tmp at ok by (simp add: Let_def)
    show ?thesis unfolding res using ne by (auto split: option.splits)
  qed
  have swapping: "fst (adjust_duration eng p target w) = Inr () \<and>
            files (snd (adjust_duration eng p target w)) p = Some out \<and>
            files (snd (adjust_duration eng p target w)) tmp = None \<and>
            (\<forall>q. q \<noteq> tmp \<and> q \<noteq> p \<longrightarrow>
               files (snd (adjust_duration eng p target w)) q = files w q)"
    if at: "atempo eng s (files w p) = (Some out, True)" for out
  proof -
    have res: "adjust_duration eng p target w =
       (Inr (),
        w\<lparr>files := (((files w)(tmp \<mapsto> out))(tmp := None))(p \<mapsto> out),
          ffmpeg_calls := ffmpeg_calls w @ [Atempo p s tmp]\<rparr>)"
      unfolding run using ws tmp at by (simp add: Let_def move_def)
    show ?thesis unfolding res using ne by auto
  qed
  from src ws tmp ne failing swapping show ?thesis by blast
qed

theorem adjust_duration_swap_after_success_witness:
  "fst (adjust_duration broken_engine [''tts'', ''seg_0000_SPEAKER_00.wav''] 1 broken_world) =
     Inl CalledProcessError \<and>
   files (snd (adjust_duration broken_engine [''tts'', ''seg_0000_SPEAKER_00.wav''] 1 broken_world))
     [''tts'', ''seg_0000_SPEAKER_00.wav''] =
     Some \<lparr>dur = 4, sample_rate = 24000, channels = 1, pcm = [1, 2, 3]\<rparr> \<and>
   files (snd (adjust_duration broken_engine [''tts'', ''seg_0000_SPEAKER_00.wav''] 1 broken_world))
     [''tts'', ''seg_0000_SPEAKER_00.temp.wav''] =
     Some \<lparr>dur = 1, sample_rate = 24000, channels = 1, pcm = [1, 2, 3]\<rparr> \<and>
   fst (adjust_duration ideal_engine [''tts'', ''seg_0000_SPEAKER_00.wav''] 1 (clip_world 4)) =
     Inr () \<and>
   files (snd (adjust_duration ideal_engine [''tts'', ''seg_0000_SPEAKER_00.wav''] 1 (clip_world 4)))
     [''tts'', ''seg_0000_SPEAKER_00.wav''] =
     Some \<lparr>dur = 2, sample_rate = 24000, channels = 1, pcm = []\<rparr> \<and>
   files (snd (adjust_duration ideal_engine [''tts'', ''seg_0000_SPEAKER_00.wav''] 1 (clip_world 4)))
     [''tts'', ''seg_0000_SPEAKER_00.temp.wav''] = None"
proof -
  let ?p = "[''tts'', ''seg_0000_SPEAKER_00.wav'']"
  let ?t = "[''tts'', ''seg_0000_SPEAKER_00.temp.wav'']"
  have calls_b: "ffmpeg_calls (snd (adjust_duration broken_engine ?p 1 broken_world)) =
            ffmpeg_calls broken_world @ [Atempo ?p 2 ?t]"
    by (simp add: adjust_duration_def ws_example broken_engine_def broken_world_def Let_def
        float_0_9_def float_0_1_def float_1_1_def)
  have temp_b: "files (snd (adjust_duration broken_engine ?p 1 broken_world)) ?t =
     Some \<lparr>dur = 1, sample_rate = 24000, channels = 1, pcm = [1, 2, 3]\<rparr>"
    by (simp add: adjust_duration_def ws_example broken_engine_def broken_world_def Let_def
        float_0_9_def float_0_1_def float_1_1_def)
  have failed_b: "\<not> snd (atempo broken_engine 2 (files broken_world ?p))"
    by (simp add: broken_engine_def)
  have clip_b: "files broken_world ?p =
     Some \<lparr>dur = 4, sample_rate = 24000, channels = 1, pcm = [1, 2, 3]\<rparr>"
    by (simp add: broken_world_def)
  have calls_i: "ffmpeg_calls (snd (adjust_duration ideal_engine ?p 1 (clip_world 4))) =
            ffmpeg_calls (clip_world 4) @ [Atempo ?p 2 ?t]"
    by (simp add: adjust_duration_def ws_example ideal_engine_def clip_world_def Let_def
        move_def float_0_9_def float_0_1_def float_1_1_def)
  have done_i: "atempo ideal_engine 2 (files (clip_world 4) ?p) =
     (Some \<lparr>dur = 2, sample_rate = 24000, channels = 1, pcm = []\<rparr>, True)"
    by (simp add: ideal_engine_def clip_world_def)
  from adjust_duration_swap_after_success[OF calls_b] failed_b clip_b temp_b
    adjust_duration_swap_after_success[OF calls_i] done_i
  show ?thesis by simp
qed

section \<open>Properties of speaker alignment\<close>


lemma keys_dict_set_old: "k \<in> set (map fst d) \<Longrightarrow> map fst (dict_set d k v) = map fst d"
  by (induction d) force+

lemma keys_dict_set_new: "k \<notin> set (map fst d) \<Longrightarrow> map fst (dict_set d k v) = map fst d @ [k]"
  by (induction d) auto

lemma keys_dict_set:
  "map fst (dict_set d k v) = (if k \<in> set (map fst d) then map fst d else map fst d @ [k])"
  by (simp add: keys_dict_set_old keys_dict_set_new)

lemma map_of_dict_set: "map_of (dict_set d k v) = (map_of d)(k \<mapsto> v)"
  by (induction d) auto

lemma dict_get_dict_set:
  "dict_get (dict_set d k v) l dflt = (if l = k then v else dict_get d l dflt)"
  by (simp add: dict_get_def map_of_dict_set)

lemma add_overlap_keys:
  "map fst (add_overlap seg d t) =
     (if label t \<in> set (map fst d) then map fst d else map fst d @ [label t])"
  by (simp add: add_overlap_def Let_def keys_dict_set)

lemma add_overlap_get:
  "dict_get (add_overlap seg d t) l 0 =
     (if l = label t then dict_get d l 0 + overlap seg t else dict_get d l 0)"
  by (simp add: add_overlap_def Let_def dict_get_dict_set overlap_def)

lemma fold_keys_set:
  "set (map fst (foldl (add_overlap seg) [] ts)) = label ` set ts"
  by (induction ts rule: rev_induct) (auto simp: add_overlap_keys)

lemma fold_get:
  "dict_get (foldl (add_overlap seg) [] ts) l 0 =
     sum_list (map (overlap seg) (filter (\<lambda>t. label t = l) ts))"
proof (induction ts rule: rev_induct)
  case Nil
  show ?case by (simp add: dict_get_def)
next
  case (snoc x xs)
  then show ?case by (cases "l = label x") (simp_all add: add_overlap_get)
qed

lemma fold_first_seen:
  "map fst (foldl (add_overlap seg) [] ts) = pre @ k # post \<Longrightarrow>
   \<exists>tp t tq. ts = tp @ t # tq \<and> label t = k \<and> label ` set tp \<subseteq> set pre"
proof (induction ts arbitrary: pre k post rule: rev_induct)
  case Nil
  then show ?case by simp
next
  case (snoc x xs)
  let ?d = "foldl (add_overlap seg) [] xs"
  show ?case
  proof (cases "label x \<in> set (map fst ?d)")
    case True
    with snoc.prems have "map fst ?d = pre @ k # post" by (simp add: add_overlap_keys)
    from snoc.IH[OF this] obtain tp t tq where "xs = tp @ t # tq" "label t = k"
      "label ` set tp \<subseteq> set pre" by blast
    then have "xs @ [x] = tp @ t # (tq @ [x])" by simp
    with \<open>label t = k\<close> \<open>label ` set tp \<subseteq> set pre\<close> show ?thesis by blast
  next
    case False
    with snoc.prems have eq: "map fst ?d @ [label x] = pre @ k # post"
      by (simp add: add_overlap_keys)
    show ?thesis
    proof (cases post rule: rev_cases)
      case Nil
      with eq have "map fst ?d = pre" "label x = k" by simp_all
      then have "label ` set xs \<subseteq> set pre" using fold_keys_set[of seg xs] by simp
      with \<open>label x = k\<close> show ?thesis by blast
    next
      case (snoc post' y)
      with eq have "map fst ?d = pre @ k # post'" by simp
      from snoc.IH[OF this] obtain tp t tq where "xs = tp @ t # tq" "label t = k"
        "label ` set tp \<subseteq> set pre" by blast
      then have "xs @ [x] = tp @ t # (tq @ [x])" by simp
      with \<open>label t = k\<close> \<open>label ` set tp \<subseteq> set pre\<close> show ?thesis by blast
    qed
  qed
qed

lemma max_from_first:
  "\<exists>pre post. b # xs = pre @ max_from f b xs # post \<and>
     (\<forall>x\<in>set pre. f x < f (max_from f b xs)) \<and>
     (\<forall>x\<in>set post. f x \<le> f (max_from f b xs))"
proof (induction xs arbitrary: b)
  case Nil
  show ?case by (intro exI[of _ "[]"]) simp
next
  case (Cons x xs)
  define b' where "b' = (if f b < f x then x else b)"
  define r where "r = max_from f b' xs"
  from Cons.IH[of b'] obtain pre post where sp: "b' # xs = pre @ r # post"
    and lt: "\<forall>y\<in>set pre. f y < f r" and le: "\<forall>y\<in>set post. f y \<le> f r"
    unfolding r_def by blast
  have r: "max_from f b (x # xs) = r" by (simp add: r_def b'_def)
  have "\<exists>pre post. b # x # xs = pre @ r # post \<and>
     (\<forall>x\<in>set pre. f x < f r) \<and> (\<forall>x\<in>set post. f x \<le> f r)"
  proof (cases "f b < f x")
    case True
    then have sp': "x # xs = pre @ r # post" using sp by (simp add: b'_def)
    have "f b < f r"
    proof (cases pre)
      case Nil
      with sp' have "r = x" by simp
      with True show ?thesis by simp
    next
      case (Cons p ps)
      with sp' have "p = x" by simp
      with Cons lt have "f x < f r" by simp
      with True show ?thesis by simp
    qed
    with lt have "\<forall>y\<in>set (b # pre). f y < f r" by simp
    moreover have "b # x # xs = (b # pre) @ r # post" using sp' by simp
    ultimately show ?thesis using le by blast
  next
    case False
    then have sp': "b # xs = pre @ r # post" using sp by (simp add: b'_def)
    show ?thesis
    proof (cases pre)
      case Nil
      with sp' have rb: "r = b" and post: "post = xs" by simp_all
      have "b # x # xs = [] @ r # (x # xs)" using rb by simp
      moreover have "\<forall>y\<in>set (x # xs). f y \<le> f r" using le post rb False by auto
      moreover have "\<forall>y\<in>set []. f y < f r" by simp
      ultimately show ?thesis by blast
    next
      case (Cons p ps)
      with sp' have pb: "p = b" and xs: "xs = ps @ r # post" by simp_all
      from Cons lt pb have "f b < f r" by simp
      with False have "f x < f r" by simp
      with lt Cons pb have "\<forall>y\<in>set (b # x # ps). f y < f r" by simp
      moreover have "b # x # xs = (b # x # ps) @ r # post" using xs by simp
      ultimately show ?thesis using le by blast
    qed
  qed
  then show ?case unfolding r .
qed


lemma overlap_nonneg: "0 \<le> overlap seg t"
  by (simp add: overlap_def)

lemma overlap_pos_iff:
  "(max (start seg) (t_start t) < min (seg_end seg) (t_end t)) = (0 < overlap seg t)"
  unfolding overlap_def by linarith

lemma overlap_clip:
  "overlap seg (t\<lparr>t_start := max (start seg) (t_start t),
                   t_end := min (seg_end seg) (t_end t)\<rparr>) = overlap seg t"
  unfolding overlap_def by simp

lemma cropped_itertracks:
  "itertracks (cropped d (start seg) (seg_end seg)) =
     map (\<lambda>t. t\<lparr>t_start := max (start seg) (t_start t), t_end := min (seg_end seg) (t_end t)\<rparr>)
         (filter (\<lambda>t. 0 < overlap seg t) d)"
  unfolding cropped_def Let_def overlap_pos_iff by (simp only: region.simps)

lemma cropped_labels_empty:
  "(labels (cropped d (start seg) (seg_end seg)) = []) = (filter (\<lambda>t. 0 < overlap seg t) d = [])"
  unfolding cropped_def Let_def overlap_pos_iff
  by (simp only: region.simps remdups_eq_nil_iff map_is_Nil_conv)

lemma accumulated_region:
  "sum_list (map (overlap seg)
      (filter (\<lambda>t. label t = l) (itertracks (cropped d (start seg) (seg_end seg))))) =
   accumulated_overlap seg d l"
proof -
  have "sum_list (map (overlap seg)
      (filter (\<lambda>t. label t = l) (itertracks (cropped d (start seg) (seg_end seg))))) =
    sum_list (map (overlap seg) (filter (\<lambda>t. label t = l) (filter (\<lambda>t. 0 < overlap seg t) d)))"
    by (simp add: cropped_itertracks filter_map comp_def overlap_clip)
  also have "\<dots> = sum_list (map (overlap seg) (filter (\<lambda>t. label t = l) d))"
  proof (induction d)
    case Nil
    show ?case by simp
  next
    case (Cons t d)
    then show ?case using overlap_nonneg[of seg t] by (cases "0 < overlap seg t") auto
  qed
  finally show ?thesis by (simp add: accumulated_overlap_def)
qed

lemma accumulated_nonneg: "0 \<le> accumulated_overlap seg d l"
  unfolding accumulated_overlap_def by (rule sum_list_nonneg) (auto simp: overlap_nonneg)

lemma dominant_speaker_cropped:
  assumes "\<exists>t\<in>set d. 0 < overlap seg t"
  shows "\<exists>pre t post.
     filter (\<lambda>t. 0 < overlap seg t) d = pre @ t # post \<and>
     dominant_speaker seg (cropped d (start seg) (seg_end seg)) = label t \<and>
     (\<forall>u\<in>set pre. accumulated_overlap seg d (label u) < accumulated_overlap seg d (label t)) \<and>
     (\<forall>l. accumulated_overlap seg d l \<le> accumulated_overlap seg d (label t))"
proof -
  define reg where "reg = cropped d (start seg) (seg_end seg)"
  define F where "F = filter (\<lambda>t. 0 < overlap seg t) d"
  define clip :: "track \<Rightarrow> track" where "clip = (\<lambda>t. t\<lparr>t_start := max (start seg) (t_start t),
                                     t_end := min (seg_end seg) (t_end t)\<rparr>)"
  define D where "D = foldl (add_overlap seg) [] (itertracks reg)"
  define f where "f = (\<lambda>l. dict_get D l 0)"
  have R: "itertracks reg = map clip F" by (simp add: reg_def F_def clip_def cropped_itertracks)
  have Fne: "F \<noteq> []" using assms by (auto simp: F_def filter_empty_conv)
  then have lne: "labels reg \<noteq> []" by (simp add: reg_def F_def cropped_labels_empty)
  have f: "f l = accumulated_overlap seg d l" for l
    unfolding f_def D_def reg_def by (simp add: fold_get accumulated_region)
  have keys: "set (map fst D) = label ` set (itertracks reg)"
    unfolding D_def by (rule fold_keys_set)
  with R Fne have "map fst D \<noteq> []" by (cases F) auto
  then obtain k ks where kks: "map fst D = k # ks" by (cases "map fst D") auto
  define r where "r = max_from f k ks"
  have res: "dominant_speaker seg reg = r"
    using lne kks by (simp add: dominant_speaker_def D_def[symmetric] Let_def r_def f_def)
  from max_from_first[of k ks f] obtain kpre kpost where
    sp: "k # ks = kpre @ r # kpost" and lt: "\<forall>x\<in>set kpre. f x < f r"
    and le: "\<forall>x\<in>set kpost. f x \<le> f r" unfolding r_def by blast
  from sp kks have "map fst D = kpre @ r # kpost" by simp
  from fold_first_seen[OF this[unfolded D_def]] obtain tp t tq where
    tr: "itertracks reg = tp @ t # tq" and lab: "label t = r"
    and before: "label ` set tp \<subseteq> set kpre" by blast
  from tr R obtain pre t0 post where F: "F = pre @ t0 # post"
    and tp: "tp = map clip pre" and t0: "t = clip t0"
    by (auto simp: map_eq_append_conv map_eq_Cons_conv)
  have lab0: "label t0 = r" using lab t0 by (simp add: clip_def)
  have "\<forall>u\<in>set pre. f (label u) < f r"
  proof
    fix u assume "u \<in> set pre"
    then have "label (clip u) \<in> label ` set tp" using tp by simp
    then have "label u \<in> set kpre" using before by (auto simp: clip_def)
    with lt show "f (label u) < f r" by simp
  qed
  moreover have "\<forall>l. f l \<le> f r"
  proof
    fix l
    show "f l \<le> f r"
    proof (cases "l \<in> set (k # ks)")
      case True
      with sp lt le show ?thesis by (auto intro: less_imp_le)
    next
      case False
      have lc: "label (clip u) = label u" for u by (simp add: clip_def)
      have "set (k # ks) = label ` set F"
        unfolding kks[symmetric] keys R by (simp add: image_image lc)
      with False have "l \<notin> label ` set F" by blast
      then have "filter (\<lambda>t. label t = l) F = []" by (auto simp: filter_empty_conv)
      then have "accumulated_overlap seg d l = 0"
        unfolding accumulated_region[symmetric] cropped_itertracks
        by (simp add: filter_map comp_def F_def)
      then show ?thesis using accumulated_nonneg[of seg d r] by (simp add: f)
    qed
  qed
  ultimately show ?thesis using F lab0 res unfolding f F_def reg_def by blast
qed



text \<open>
  What the rest of \<open>align_speakers\<close> does with the regions, seen through a diarization
  object whose \<open>crop\<close> returns one for every request.
\<close>

lemma align_speakers_regions:
  assumes "\<forall>seg\<in>set segments.
             diarization (Dict_support (start seg) (seg_end seg)) = Some (region_of seg)"
  shows "align_speakers segments diarization =
     (Inr (), map (\<lambda>seg. seg\<lparr>speaker_id := Some (dominant_speaker seg (region_of seg))\<rparr>)
                 segments)"
  using assms by (induction segments) simp_all

lemma dominant_speaker_default:
  assumes "\<forall>t\<in>set d. \<not> 0 < overlap seg t"
  shows "dominant_speaker seg (cropped d (start seg) (seg_end seg)) = ''SPEAKER_00''"
proof -
  from assms have "filter (\<lambda>t. 0 < overlap seg t) d = []"
    by (auto simp: filter_empty_conv)
  then have "labels (cropped d (start seg) (seg_end seg)) = []"
    by (simp add: cropped_labels_empty)
  then show ?thesis by (simp add: dominant_speaker_def)
qed

text \<open>
  Handed an annotation of the library, \<open>align_speakers\<close> raises at its first segment,
  and \<open>run\<close> then gives every segment \<open>SPEAKER_00\<close>.
\<close>

lemma align_speakers_raises:
  "align_speakers (seg # rest) (crop tracks) = (Inl AttributeError, seg # rest)"
  by (simp add: crop_def)

lemma run_diarized:
  assumes "transcribe asr = Inr segments"
  shows "run asr (diarized tracks) =
     Inr (map (\<lambda>seg. seg\<lparr>speaker_id := Some ''SPEAKER_00''\<rparr>) segments)"
proof (cases segments)
  case Nil
  with assms show ?thesis by (simp add: run_def)
next
  case (Cons seg rest)
  with assms show ?thesis
    by (simp add: run_def diarize_def diarized_def align_speakers_raises
        del: align_speakers.simps)
qed

lemma one_line_transcribed: "transcribe (Inr one_line) = Inr [seg_0_2]"
  by (simp add: transcribe_def one_line_def strip_def is_space_def check_timestamps_def
      seg_0_2_def)

lemma lenient_regions:
  "\<forall>seg\<in>set segments.
     lenient tracks (Dict_support (start seg) (seg_end seg)) =
       Some (cropped tracks (start seg) (seg_end seg))"
  by (simp add: lenient_def)

text \<open>
  Claim C3. The claim does not hold of the code. \<open>align_speakers\<close> hands
  \<open>diarization.crop\<close> a dict, for which the library's annotation returns \<open>None\<close>, so for
  every annotation and every segment list that is not empty the call raises
  \<open>AttributeError\<close> at \<open>region.labels()\<close> before any label is assigned. For the
  segment \<open>{0, 2}\<close> and the intervals \<open>{0, 2, A}\<close>, \<open>{1, 3, B}\<close>, where A has the greatest
  accumulated overlap (2 against 1), \<open>align_speakers\<close> raises and leaves the segment
  without a speaker, and \<open>run\<close> catches the error and returns the segment as
  \<open>SPEAKER_00\<close>. Only with a diarization object whose \<open>crop\<close> accepts the dict does the
  loop assign A.
\<close>

theorem align_speakers_raises_on_annotation:
  "(\<forall>seg rest tracks.
      align_speakers (seg # rest) (crop tracks) = (Inl AttributeError, seg # rest)) \<and>
   accumulated_overlap seg_0_2 spoken_over ''A'' = 2 \<and>
   accumulated_overlap seg_0_2 spoken_over ''B'' = 1 \<and>
   align_speakers [seg_0_2] (crop spoken_over) = (Inl AttributeError, [seg_0_2]) \<and>
   speaker_id seg_0_2 = None \<and>
   run (Inr one_line) (diarized spoken_over) =
     Inr [seg_0_2\<lparr>speaker_id := Some ''SPEAKER_00''\<rparr>] \<and>
   align_speakers [seg_0_2] (lenient spoken_over) =
     (Inr (), [seg_0_2\<lparr>speaker_id := Some ''A''\<rparr>])"
proof -
  have a: "\<forall>seg rest tracks.
      align_speakers (seg # rest) (crop tracks) = (Inl AttributeError, seg # rest)"
    by (intro allI) (rule align_speakers_raises)
  have b: "accumulated_overlap seg_0_2 spoken_over ''A'' = 2"
    "accumulated_overlap seg_0_2 spoken_over ''B'' = 1"
    by (simp_all add: accumulated_overlap_def spoken_over_def seg_0_2_def overlap_def)
  have c: "speaker_id seg_0_2 = None" by (simp add: seg_0_2_def)
  have d: "run (Inr one_line) (diarized spoken_over) =
     Inr [seg_0_2\<lparr>speaker_id := Some ''SPEAKER_00''\<rparr>]"
    by (simp add: run_diarized[OF one_line_transcribed])
  have "dominant_speaker seg_0_2 (cropped spoken_over (start seg_0_2) (seg_end seg_0_2)) = ''A''"
    by (simp add: seg_0_2_def spoken_over_def cropped_def dominant_speaker_def
        add_overlap_def dict_get_def Let_def)
  then have e: "align_speakers [seg_0_2] (lenient spoken_over) =
     (Inr (), [seg_0_2\<lparr>speaker_id := Some ''A''\<rparr>])"
    by (simp add: align_speakers_regions[OF lenient_regions])
  from a b c d e show ?thesis by (simp only: align_speakers_raises simp_thms)
qed

text \<open>
  Claim C8. The claim does not hold of the code, through the same call of
  \<open>diarization.crop\<close> with a dict: with no diarization interval at all, and with
  intervals of which none overlaps the segment, \<open>align_speakers\<close> raises
  \<open>AttributeError\<close> and assigns nothing, so the segment keeps the speaker it had, here
  none. That the segment leaves \<open>run\<close> as \<open>SPEAKER_00\<close> is the work of the handler
  in \<open>run\<close>, which gives that identity to every segment whatever the intervals are. Only
  with a diarization object whose \<open>crop\<close> accepts the dict does the loop itself assign
  \<open>SPEAKER_00\<close>.
\<close>

theorem align_speakers_assigns_no_default:
  "align_speakers [seg_0_2] (crop []) = (Inl AttributeError, [seg_0_2]) \<and>
   list_all (\<lambda>t. \<not> 0 < overlap seg_0_2 t) far_diarization \<and>
   align_speakers [seg_0_2] (crop far_diarization) = (Inl AttributeError, [seg_0_2]) \<and>
   speaker_id seg_0_2 = None \<and>
   run (Inr one_line) (diarized []) = Inr [seg_0_2\<lparr>speaker_id := Some ''SPEAKER_00''\<rparr>] \<and>
   run (Inr one_line) (diarized far_diarization) =
     Inr [seg_0_2\<lparr>speaker_id := Some ''SPEAKER_00''\<rparr>] \<and>
   align_speakers [seg_0_2] (lenient []) =
     (Inr (), [seg_0_2\<lparr>speaker_id := Some ''SPEAKER_00''\<rparr>]) \<and>
   align_speakers [seg_0_2] (lenient far_diarization) =
     (Inr (), [seg_0_2\<lparr>speaker_id := Some ''SPEAKER_00''\<rparr>])"
proof -
  have far: "list_all (\<lambda>t. \<not> 0 < overlap seg_0_2 t) far_diarization"
    by (simp add: far_diarization_def seg_0_2_def overlap_def)
  have c: "speaker_id seg_0_2 = None" by (simp add: seg_0_2_def)
  have d: "run (Inr one_line) (diarized tracks) =
     Inr [seg_0_2\<lparr>speaker_id := Some ''SPEAKER_00''\<rparr>]" for tracks
    by (simp add: run_diarized[OF one_line_transcribed])
  have "dominant_speaker seg_0_2 (cropped [] (start seg_0_2) (seg_end seg_0_2)) = ''SPEAKER_00''"
    by (rule dominant_speaker_default) simp
  then have e: "align_speakers [seg_0_2] (lenient []) =
     (Inr (), [seg_0_2\<lparr>speaker_id := Some ''SPEAKER_00''\<rparr>])"
    by (simp add: align_speakers_regions[OF lenient_regions])
  have "dominant_speaker seg_0_2 (cropped far_diarization (start seg_0_2) (seg_end seg_0_2)) =
        ''SPEAKER_00''"
    by (rule dominant_speaker_default) (use far in \<open>simp add: list_all_iff\<close>)
  then have f: "align_speakers [seg_0_2] (lenient far_diarization) =
     (Inr (), [seg_0_2\<lparr>speaker_id := Some ''SPEAKER_00''\<rparr>])"
    by (simp add: align_speakers_regions[OF lenient_regions])
  from far c d e f show ?thesis by (simp only: align_speakers_raises simp_thms)
qed

text \<open>
  Claim C7. When diarization fails, because the pipeline cannot be loaded or because
  running it raises, \<open>run\<close> still returns every transcribed segment, each with the
  speaker \<open>SPEAKER_00\<close> and otherwise unchanged.
\<close>

theorem run_diarization_failure:
  assumes "transcribe asr = Inr segments"
    and "load_pipeline d = Some e \<or> (load_pipeline d = None \<and> apply_pipeline d = Inl e)"
  shows "run asr d = Inr (map (\<lambda>seg. seg\<lparr>speaker_id := Some ''SPEAKER_00''\<rparr>) segments)"
proof -
  from assms(2) have "diarize d = Inl e" by (auto simp: diarize_def)
  with assms(1) show ?thesis by (simp add: run_def)
qed

lemma two_lines_transcribed:
  "transcribe (Inr two_lines) =
     Inr [\<lparr>seg_id = 0, start = 0, seg_end = 1, source_text = ''Hi'', translated_text = None,
           speaker_id = None, audio_path = None\<rparr>,
          \<lparr>seg_id = 2, start = 3 / 2, seg_end = 4, source_text = ''there'', translated_text = None,
           speaker_id = None, audio_path = None\<rparr>]"
  by (simp add: transcribe_def two_lines_def strip_def is_space_def check_timestamps_def)

theorem run_diarization_failure_witness:
  "run (Inr two_lines) no_credentials =
     Inr [\<lparr>seg_id = 0, start = 0, seg_end = 1, source_text = ''Hi'', translated_text = None,
           speaker_id = Some ''SPEAKER_00'', audio_path = None\<rparr>,
          \<lparr>seg_id = 2, start = 3 / 2, seg_end = 4, source_text = ''there'', translated_text = None,
           speaker_id = Some ''SPEAKER_00'', audio_path = None\<rparr>]"
proof -
  have h2: "load_pipeline no_credentials = Some EngineError \<or>
            (load_pipeline no_credentials = None \<and> apply_pipeline no_credentials = Inl EngineError)"
    by (simp add: no_credentials_def)
  from run_diarization_failure[OF two_lines_transcribed h2] show ?thesis by simp
qed


section \<open>Properties of timeline assembly\<close>





lemma silence_path_inj [simp]: "(silence_path wd a = silence_path wd b) = (a = b)"
  by (simp add: silence_path_def)

lemma gap_not_end [simp]: "''gap_'' @ x \<noteq> ''end''"
  by simp




lemma float_0_01_pos: "0 < float_0_01"
  by (simp add: float_0_01_def)

lemma nominal_append [simp]: "nominal fs (xs @ ys) = nominal fs xs + nominal fs ys"
  by (simp add: nominal_def)

lemma nominal_single [simp]: "fs p = Some a \<Longrightarrow> nominal fs [p] = dur a"
  by (simp add: nominal_def)










lemma pad_gap_near:
  "\<not> start seg - current_time st > float_0_01 \<Longrightarrow> pad_gap tools wd st i seg = (Inr (), st)"
  by (simp add: pad_gap_def Let_def)

lemma mix_step_present:
  "audio_path seg = Some p \<Longrightarrow> disk st p \<noteq> None \<Longrightarrow>
   pad_gap tools wd st i seg = (Inr (), st1) \<Longrightarrow>
   mix_step tools wd st i seg =
     (Inr (), st1\<lparr>concat_list := concat_list st1 @ [Speech p], current_time := seg_end seg\<rparr>)"
  by (auto simp: mix_step_def)

















lemma clip_not_silence [simp]: "clip_path name \<noteq> silence_path [''work''] index"
  by (simp add: clip_path_def silence_path_def)








text \<open>
  Outside the amended claim: a clip in another format than the silence files, and an
  empty concat list. One second of speech as XTTS writes it (24 kHz, one channel)
  between two seconds of silence is copied under the header of the first silence file,
  and the three seconds come out as \<open>(176400 + 48000 + 176400) / 176400\<close> seconds, about
  2.272 s. With no segment and a declared duration of at most the tolerance nothing is
  listed, and the concatenation fails.
\<close>

lemma xtts_voice_track:
  "fst (voice_track ffmpeg_tools [''work''] 3 xtts_segment xtts_store) =
     Inr (silent_clip (334 / 147))"
  by (simp add: voice_track_def build_concat_list_def xtts_segment_def xtts_store_def dubbed_def
      film_stems_def mix_step_def pad_gap_def get_silence_def silence_path_def clip_path_def
      concat_files_def played_def stream_bytes_def byte_rate_def silent_clip_def
      ffmpeg_tools_def float_0_01_def string_of_nat.simps digit_char_def Let_def)

lemma empty_voice_track:
  "total_duration \<le> float_0_01 \<Longrightarrow>
   fst (voice_track tools work_dir total_duration [] fs) = Inl CalledProcessError"
  by (simp add: voice_track_def build_concat_list_def concat_files_def)

text \<open>
  Claim C10, as amended. A segment with a clip whose start lies before the cursor is not
  refused: the step writes no silence, puts the clip right after the blocks written so
  far, so that it begins where they end, and sets the cursor to the end of the segment,
  also when that is before the old cursor. The clip begins after its declared start
  whenever the blocks written so far play at least up to the cursor.
\<close>

theorem mix_step_overlapping:
  assumes "audio_path seg = Some p" and "disk st p \<noteq> None" and "start seg < current_time st"
  shows "mix_step tools work_dir st i seg =
           (Inr (), st\<lparr>concat_list := concat_list st @ [Speech p], current_time := seg_end seg\<rparr>) \<and>
         placement tools work_dir st i seg = Some (written st) \<and>
         (current_time st \<le> written st \<longrightarrow> start seg < written st)"
proof -
  from assms(3) float_0_01_pos have near: "\<not> start seg - current_time st > float_0_01" by simp
  have "mix_step tools work_dir st i seg =
           (Inr (), st\<lparr>concat_list := concat_list st @ [Speech p], current_time := seg_end seg\<rparr>)"
    using assms(1,2) by (simp add: mix_step_present[OF _ _ pad_gap_near[OF near]])
  moreover have "placement tools work_dir st i seg = Some (written st)"
    by (simp add: placement_def pad_gap_near[OF near] written_def)
  ultimately show ?thesis using assms(3) by simp
qed

theorem mix_step_overlapping_witness:
  "audio_path (unsorted_segments ! 1) = Some (clip_path ''seg_0001_SPEAKER_00.wav'') \<and>
   disk after_six (clip_path ''seg_0001_SPEAKER_00.wav'') \<noteq> None \<and>
   start (unsorted_segments ! 1) < current_time after_six \<and>
   mix_step ffmpeg_tools [''work''] after_six 1 (unsorted_segments ! 1) =
     (Inr (),
      after_six\<lparr>concat_list := concat_list after_six @ [Speech (clip_path ''seg_0001_SPEAKER_00.wav'')],
                current_time := 1\<rparr>) \<and>
   placement ffmpeg_tools [''work''] after_six 1 (unsorted_segments ! 1) = Some 6 \<and>
   start (unsorted_segments ! 1) = 0"
proof -
  have h1: "audio_path (unsorted_segments ! 1) = Some (clip_path ''seg_0001_SPEAKER_00.wav'')"
    by (simp add: unsorted_segments_def dubbed_def)
  have h2: "disk after_six (clip_path ''seg_0001_SPEAKER_00.wav'') \<noteq> None"
    by (simp add: after_six_def unsorted_store_def clip_path_def)
  have h3: "start (unsorted_segments ! 1) < current_time after_six"
    by (simp add: unsorted_segments_def dubbed_def after_six_def)
  have e: "seg_end (unsorted_segments ! 1) = 1" "start (unsorted_segments ! 1) = 0"
    by (simp_all add: unsorted_segments_def dubbed_def)
  have w: "written after_six = 6"
    by (simp add: written_def after_six_def played_def stream_bytes_def byte_rate_def
        unsorted_store_def clip_path_def silent_clip_def)
  from mix_step_overlapping[OF h1 h2 h3, of ffmpeg_tools "[''work'']" 1] h1 h2 h3 e w
  show ?thesis by simp
qed

text \<open>
  Claim C10, as stated, fails in one part: the clip is not always placed later than its
  declared start. After a segment from 5 ms to 1 s whose clip plays 0.995 s (no silence
  is written for the 5 ms), the cursor is at 1 s and the blocks written play 0.995 s. A
  segment that starts at 0.996 s, before the cursor, gets no silence, and its clip
  begins at 0.995 s: before its declared start.
\<close>

theorem mix_step_overlapping_counterexample:
  "assemble_from ffmpeg_tools [''work''] 0
     \<lparr>current_time = 0, concat_list = [], disk = disk after_one\<rparr> [early_segments ! 0] =
     (Inr (), after_one) \<and>
   audio_path (early_segments ! 1) = Some (clip_path ''seg_0001_SPEAKER_00.wav'') \<and>
   disk after_one (clip_path ''seg_0001_SPEAKER_00.wav'') \<noteq> None \<and>
   start (early_segments ! 1) < current_time after_one \<and>
   mix_step ffmpeg_tools [''work''] after_one 1 (early_segments ! 1) =
     (Inr (),
      after_one\<lparr>concat_list := concat_list after_one @ [Speech (clip_path ''seg_0001_SPEAKER_00.wav'')],
                current_time := 2\<rparr>) \<and>
   placement ffmpeg_tools [''work''] after_one 1 (early_segments ! 1) = Some (199 / 200) \<and>
   start (early_segments ! 1) = 249 / 250 \<and>
   (199 / 200 :: rat) < 249 / 250"
  by (simp add: early_segments_def after_one_def dubbed_def mix_step_def pad_gap_def
      placement_def played_def stream_bytes_def byte_rate_def clip_path_def silent_clip_def
      float_0_01_def Let_def)

section \<open>Properties of the synthesis loop\<close>




lemma synthesize_all_length:
  "length (fst (synthesize_all cfg xs w)) = length xs"
proof (induction xs arbitrary: w)
  case Nil
  show ?case by simp
next
  case (Cons a xs)
  obtain a' w1 where p: "process_segment cfg a w = (a', w1)" by (cases "process_segment cfg a w")
  obtain r w2 where r: "synthesize_all cfg xs w1 = (r, w2)" by (cases "synthesize_all cfg xs w1")
  from Cons[of w1] r have "length r = length xs" by simp
  with p r show ?case by simp
qed






























section \<open>The order in which segments are assembled\<close>

lemma process_segment_keeps_window:
  "start (fst (process_segment cfg seg w)) = start seg \<and>
   seg_end (fst (process_segment cfg seg w)) = seg_end seg \<and>
   seg_id (fst (process_segment cfg seg w)) = seg_id seg"
  by (simp add: process_segment_def Let_def split: option.splits prod.splits sum.splits)

lemma synthesize_all_keeps_order:
  "map (\<lambda>seg. (seg_id seg, start seg, seg_end seg)) (fst (synthesize_all cfg segs w)) =
   map (\<lambda>seg. (seg_id seg, start seg, seg_end seg)) segs"
proof (induction segs arbitrary: w)
  case Nil
  show ?case by simp
next
  case (Cons seg segs)
  obtain seg' w1 where p: "process_segment cfg seg w = (seg', w1)"
    by (cases "process_segment cfg seg w")
  obtain segs' w2 where r: "synthesize_all cfg segs w1 = (segs', w2)"
    by (cases "synthesize_all cfg segs w1")
  from process_segment_keeps_window[of cfg seg w] p
  have "(seg_id seg', start seg', seg_end seg') = (seg_id seg, start seg, seg_end seg)" by simp
  moreover from Cons[of w1] r
  have "map (\<lambda>seg. (seg_id seg, start seg, seg_end seg)) segs' =
        map (\<lambda>seg. (seg_id seg, start seg, seg_end seg)) segs" by simp
  ultimately show ?case using p r by simp
qed

text \<open>
  Claim C2. The segments are taken in list order, not in order of their start. The
  synthesis loop hands its list on with every segment in its place, and the mixer walks
  that list as it is: for a list whose first segment starts at 5 s and whose second
  starts at 0 s, the clip of the first is written first, after 5 s of silence, the clip
  of the second right after it, and the voice track for 10 s of original audio plays
  16 s.
\<close>

theorem create_mixed_audio_keeps_list_order:
  "assemble_from ffmpeg_tools [''work''] 0
     \<lparr>current_time = 0, concat_list = [], disk = unsorted_store\<rparr>
     [unsorted_segments ! 0] = (Inr (), after_six) \<and>
   fst (build_concat_list ffmpeg_tools [''work''] 10 unsorted_segments unsorted_store) = Inr () \<and>
   concat_list (snd (build_concat_list ffmpeg_tools [''work''] 10 unsorted_segments
                       unsorted_store)) =
     [Silence [''work'', ''silence_gap_0.wav''],
      Speech (clip_path ''seg_0000_SPEAKER_00.wav''),
      Speech (clip_path ''seg_0001_SPEAKER_00.wav''),
      Silence [''work'', ''silence_end.wav'']] \<and>
   start (unsorted_segments ! 1) < start (unsorted_segments ! 0) \<and>
   fst (voice_track ffmpeg_tools [''work''] 10 unsorted_segments unsorted_store) =
     Inr (silent_clip 16) \<and>
   (\<forall>cfg w. map start (fst (synthesize_all cfg unsorted_segments w)) = [5, 0])"
  using synthesize_all_keeps_order[of _ unsorted_segments, THEN arg_cong, of "map (\<lambda>t. fst (snd t))"]
  by (simp add: voice_track_def build_concat_list_def unsorted_segments_def unsorted_store_def
        dubbed_def after_six_def mix_step_def pad_gap_def get_silence_def silence_path_def
        clip_path_def concat_files_def played_def stream_bytes_def byte_rate_def silent_clip_def
        ffmpeg_tools_def float_0_01_def Let_def string_of_nat.simps digit_char_def comp_def)

end
